theory Spec2Isabelle
  imports Complex_Main "HOL-Library.Log_Nat"
begin

section \<open>Sim2Blend/markers.py: importing marker trajectories\<close>

text \<open>
  The module \<^verbatim>\<open>markers.py\<close> reads a \<^verbatim>\<open>.trc\<close> marker file (\<^verbatim>\<open>load_trc\<close>), creates
  one sphere object per marker in a new collection (\<^verbatim>\<open>addMarker\<close>) and animates the
  objects by inserting location keyframes (\<^verbatim>\<open>import_trc\<close>).

  Conventions of the embedding.
  \<^item> A Python exception is a value of \<open>error\<close>; a function that can raise returns
    \<open>error + 'a\<close>, and a function that mutates the host and can raise returns the
    exception (if any) together with the state it leaves behind.
  \<^item> Python integers are \<open>int\<close>. An entry of the table (a finite numpy float64) is the
    \<open>real\<close> number it denotes. Reading, permuting and negating entries is exact. The
    arithmetic on the time stamps is float64 arithmetic: each operation rounds its exact
    result to the nearest float64 and may give an infinity or NaN (see \<open>f64_round\<close>).
  \<^item> A text file is the list of its lines, each as the file iterator yields it (with
    its line terminator).
\<close>

subsection \<open>Exceptions\<close>

datatype error =
    IndexError
  | ValueError
  | OverflowError
  | ZeroDivisionError
  | UnboundLocalError
  | FileNotFoundError
  | KeyError

subsection \<open>Strings\<close>

text \<open>\<^verbatim>\<open>s.endswith(suf)\<close>\<close>

definition endswith :: "string \<Rightarrow> string \<Rightarrow> bool" where
  "endswith s suf = (length suf \<le> length s \<and> drop (length s - length suf) s = suf)"

text \<open>\<^verbatim>\<open>s.startswith(p)\<close>, used by the scans below.\<close>

definition startswith :: "string \<Rightarrow> string \<Rightarrow> bool" where
  "startswith s p = (take (length p) s = p)"

text \<open>\<^verbatim>\<open>m in s\<close> for strings: \<open>m\<close> occurs in \<open>s\<close> as a contiguous substring.\<close>

fun contains :: "string \<Rightarrow> string \<Rightarrow> bool" where
  "contains [] m = (m = [])"
| "contains (c # cs) m = (startswith (c # cs) m \<or> contains cs m)"

text \<open>
  The slice \<^verbatim>\<open>s[12:-3]\<close>: the characters from index 12 up to (not including) index
  \<open>len(s) - 3\<close>; empty when the string is too short.
\<close>

definition slice_12_m3 :: "string \<Rightarrow> string" where
  "slice_12_m3 s = drop 12 (take (length s - 3) s)"

text \<open>
  \<^verbatim>\<open>s.split(sep)\<close> for a non-empty separator \<open>d # ds\<close>: a left-to-right scan that cuts
  at every non-overlapping occurrence of the separator; \<open>cur\<close> is the piece being read.
\<close>

fun split_scan :: "char \<Rightarrow> string \<Rightarrow> string \<Rightarrow> string \<Rightarrow> string list" where
  "split_scan d ds cur [] = [cur]"
| "split_scan d ds cur (c # cs) =
     (if c = d \<and> startswith cs ds
      then cur # split_scan d ds [] (drop (length ds) cs)
      else split_scan d ds (cur @ [c]) cs)"

definition str_split :: "string \<Rightarrow> string \<Rightarrow> error + string list" where
  "str_split s sep = (case sep of [] \<Rightarrow> Inl ValueError | d # ds \<Rightarrow> Inr (split_scan d ds [] s))"

definition TAB :: char where
  "TAB = CHR 0x09"

definition NL :: char where
  "NL = CHR 0x0A"

subsection \<open>load_trc\<close>

text \<open>
  The result of \<^verbatim>\<open>np.loadtxt\<close>: a one-dimensional array (what numpy returns for a
  file with a single data row or a single column) or a two-dimensional one, as its rows.
\<close>

datatype ndarray = Array1 "real list" | Array2 "real list list"

text \<open>\<^verbatim>\<open>a[:,1:]\<close>: all rows without their first column; a one-dimensional array has no
  second axis.\<close>

definition drop_first_column :: "ndarray \<Rightarrow> error + real list list" where
  "drop_first_column a = (case a of Array1 v \<Rightarrow> Inl IndexError | Array2 rows \<Rightarrow> Inr (map (drop 1) rows))"

text \<open>
  The loop that reads the marker names:
  \<^verbatim>\<open>
    for i, line in enumerate(f):
        if i == 2:
            trc_header = f.readline()[12:-3]
        elif i > 2:
            break
  \<close>
  \<open>i\<close> counts the iterations, the list holds the lines the file object has not yet
  handed out, and \<open>hdr\<close> is \<open>trc_header\<close> (\<open>None\<close> while it is unbound). The loop
  variable \<open>line\<close> is never read. In iteration 2 the body calls \<^verbatim>\<open>f.readline()\<close>,
  which takes the next line from the same file object (the empty string at the end of
  the file).
\<close>

fun read_header :: "nat \<Rightarrow> string list \<Rightarrow> string option \<Rightarrow> string option" where
  "read_header i [] hdr = hdr"
| "read_header i (line # rest) hdr =
     (if i = 2 then
        (case rest of
           [] \<Rightarrow> read_header (i + 1) [] (Some (slice_12_m3 []))
         | nxt # rest' \<Rightarrow> read_header (i + 1) rest' (Some (slice_12_m3 nxt)))
      else if i > 2 then hdr
      else read_header (i + 1) rest hdr)"

text \<open>\<^verbatim>\<open>markerNames = trc_header.split('\t\t\t')\<close>\<close>

definition markerNames_of :: "string list \<Rightarrow> error + string list" where
  "markerNames_of file_lines =
     (case read_header 0 file_lines None of
        None \<Rightarrow> Inl UnboundLocalError
      | Some trc_header \<Rightarrow> str_split trc_header [TAB, TAB, TAB])"

text \<open>
  \<^verbatim>\<open>load_trc(trc_path)\<close>. The numeric parser \<^verbatim>\<open>np.loadtxt\<close> belongs to numpy and is a
  parameter: \<open>loadtxt ls k\<close> is its result on a file with lines \<open>ls\<close> and
  \<^verbatim>\<open>skiprows=k\<close>. \<open>fs\<close> is the file system: the lines of the file at a path, if there
  is one.
\<close>

definition load_trc ::
  "(string list \<Rightarrow> nat \<Rightarrow> error + ndarray) \<Rightarrow> (string \<Rightarrow> string list option) \<Rightarrow> string
     \<Rightarrow> error + (real list list \<times> string list)" where
  "load_trc loadtxt fs trc_path =
     (case fs trc_path of
        None \<Rightarrow> Inl FileNotFoundError
      | Some file_lines \<Rightarrow>
          (case loadtxt file_lines 5 of
             Inl e \<Rightarrow> Inl e
           | Inr a \<Rightarrow>
               (case drop_first_column a of
                  Inl e \<Rightarrow> Inl e
                | Inr trc_data_np \<Rightarrow>
                    (case markerNames_of file_lines of
                       Inl e \<Rightarrow> Inl e
                     | Inr markerNames \<Rightarrow> Inr (trc_data_np, markerNames)))))"

subsection \<open>Python and numpy primitives used by import_trc\<close>

text \<open>\<^verbatim>\<open>xs[0]\<close> and \<^verbatim>\<open>xs[-1]\<close> on a one-dimensional array.\<close>

definition first_elem :: "'a list \<Rightarrow> error + 'a" where
  "first_elem xs = (case xs of [] \<Rightarrow> Inl IndexError | x # _ \<Rightarrow> Inr x)"

definition last_elem :: "'a list \<Rightarrow> error + 'a" where
  "last_elem xs = (case xs of [] \<Rightarrow> Inl IndexError | _ # _ \<Rightarrow> Inr (last xs))"

text \<open>\<^verbatim>\<open>a[:,0]\<close>: column 0 of a two-dimensional array; an array whose rows are empty
  has no column 0.\<close>

definition column0 :: "real list list \<Rightarrow> error + real list" where
  "column0 a = (if list_all (\<lambda>row. row \<noteq> []) a then Inr (map hd a) else Inl IndexError)"

text \<open>\<^verbatim>\<open>a[n,j]\<close> for indices that are not negative.\<close>

definition at2 :: "real list list \<Rightarrow> nat \<Rightarrow> nat \<Rightarrow> error + real" where
  "at2 a n j = (if n < length a \<and> j < length (a ! n) then Inr (a ! n ! j) else Inl IndexError)"

text \<open>\<^verbatim>\<open>int(x)\<close> on a float: truncation toward zero.\<close>

definition py_int :: "real \<Rightarrow> int" where
  "py_int x = (if 0 \<le> x then \<lfloor>x\<rfloor> else \<lceil>x\<rceil>)"

text \<open>\<^verbatim>\<open>a / b\<close> on two Python integers: true division, which raises on a zero divisor.
  The quotient is taken exact; its only use is under \<^verbatim>\<open>int()\<close>, on integers far below
  \<open>2 ^ 53\<close>.\<close>

definition truediv :: "int \<Rightarrow> int \<Rightarrow> error + real" where
  "truediv a b = (if b = 0 then Inl ZeroDivisionError else Inr (real_of_int a / real_of_int b))"

text \<open>
  \<^verbatim>\<open>range(0, stop, step)\<close>, as the list of the values it yields. A zero step raises
  ValueError, a negative step yields nothing, and a positive step counts
  \<open>0, step, 2 * step, ...\<close> while the value is below \<open>stop\<close>.
\<close>

function range_from :: "nat \<Rightarrow> nat \<Rightarrow> nat \<Rightarrow> nat list" where
  "range_from n stop step =
     (if step = 0 \<or> stop \<le> n then [] else n # range_from (n + step) stop step)"
  by pat_completeness auto
termination
  by (relation "measure (\<lambda>(n, stop, step). stop - n)") auto

definition py_range :: "nat \<Rightarrow> int \<Rightarrow> error + nat list" where
  "py_range stop step =
     (if step = 0 then Inl ValueError
      else if step < 0 then Inr []
      else Inr (range_from 0 stop (nat step)))"

subsection \<open>The host scene\<close>

text \<open>
  What the module reads and writes of Blender. A marker object has the name it was
  created with, a location, the radius and colour of its sphere and material, and the
  \<^verbatim>\<open>keyframe_insert('location', frame=f)\<close> calls it received, in order, each with the
  location the object had at the call. A collection holds its objects in the order in
  which they were linked. The host is taken to keep the name an object is created with.
\<close>

type_synonym vec3 = "real \<times> real \<times> real"

record bl_object =
  ob_name :: string
  ob_location :: vec3
  ob_radius :: real
  ob_color :: "real \<times> real \<times> real \<times> real"
  ob_keyframes :: "(int \<times> vec3) list"

record bl_collection =
  coll_name :: string
  coll_objects :: "bl_object list"

record bpy =
  render_fps :: int
  scene_collections :: "bl_collection list"
  enabled_addons :: "string list"

definition RADIUS :: real where
  "RADIUS = 12 / 1000"

definition COLOR :: "real \<times> real \<times> real \<times> real" where
  "COLOR = (0, 1, 0, 0.8)"

subsection \<open>addMarker\<close>

definition addMarker :: "bl_collection \<Rightarrow> vec3 \<Rightarrow> string \<Rightarrow> real \<times> real \<times> real \<times> real \<Rightarrow> bl_collection" where
  "addMarker marker_collection position text color =
     marker_collection\<lparr>coll_objects := coll_objects marker_collection @
       [\<lparr>ob_name = text, ob_location = position, ob_radius = RADIUS, ob_color = color,
         ob_keyframes = []\<rparr>]\<rparr>"

text \<open>\<^verbatim>\<open>for markerName in markerNames: addMarker(marker_collection, text=markerName)\<close>\<close>

fun create_markers :: "string list \<Rightarrow> bl_collection \<Rightarrow> bl_collection" where
  "create_markers [] marker_collection = marker_collection"
| "create_markers (markerName # rest) marker_collection =
     create_markers rest (addMarker marker_collection (0, 0, 0) markerName COLOR)"

subsection \<open>import_trc: frame rates\<close>

text \<open>
  The results of float64 operations: a finite float64 (the real number it denotes), an
  infinity or NaN. The sign of an infinity plays no role below and is not kept.
\<close>

datatype f64 = Finite real | Infinite | NaN

text \<open>For \<open>x > 0\<close>: the integer \<open>e\<close> with \<open>2 powi e \<le> x < 2 powi (e + 1)\<close>.\<close>

definition binary_exponent :: "real \<Rightarrow> int" where
  "binary_exponent x =
     (if 1 \<le> x then bitlen \<lfloor>x\<rfloor> - 1 else - bitlen (\<lceil>1 / x\<rceil> - 1))"

text \<open>The integer nearest to \<open>y\<close>; of two nearest integers, the even one.\<close>

definition round_half_even :: "real \<Rightarrow> int" where
  "round_half_even y =
     (let f = \<lfloor>y\<rfloor>; r = y - of_int f
      in if r < 1 / 2 then f else if 1 / 2 < r then f + 1 else if even f then f else f + 1)"

text \<open>
  IEEE 754 rounding of a real number to binary64, to nearest with ties to even: 53
  significant bits, so numbers with binary exponent \<open>e\<close> are spaced \<open>2 powi (e - 52)\<close>
  apart; below the least normal exponent \<open>- 1022\<close> the spacing stays \<open>2 powi (- 1074)\<close>
  (subnormal numbers, and zero); a rounded magnitude of \<open>2 ^ 1024\<close> or more overflows to
  an infinity.
\<close>

definition f64_round :: "real \<Rightarrow> f64" where
  "f64_round x =
     (if x = 0 then Finite 0
      else let q = max (binary_exponent \<bar>x\<bar>) (- 1022) - 52;
               v = of_int (round_half_even (x / 2 powi q)) * 2 powi q
           in if 2 ^ 1024 \<le> \<bar>v\<bar> then Infinite else Finite v)"

text \<open>\<^verbatim>\<open>a - b\<close> on two finite float64.\<close>

definition f64_sub :: "real \<Rightarrow> real \<Rightarrow> f64" where
  "f64_sub a b = f64_round (a - b)"

text \<open>
  \<^verbatim>\<open>a / b\<close> on float64, as numpy computes it: no exception, a zero divisor gives NaN
  for a zero dividend and an infinity otherwise.
\<close>

definition f64_div :: "f64 \<Rightarrow> f64 \<Rightarrow> f64" where
  "f64_div a b =
     (case a of
        NaN \<Rightarrow> NaN
      | Infinite \<Rightarrow> (case b of Finite y \<Rightarrow> Infinite | Infinite \<Rightarrow> NaN | NaN \<Rightarrow> NaN)
      | Finite x \<Rightarrow>
          (case b of
             NaN \<Rightarrow> NaN
           | Infinite \<Rightarrow> Finite 0
           | Finite y \<Rightarrow>
               (if y = 0 then (if x = 0 then NaN else Infinite) else f64_round (x / y))))"

text \<open>\<^verbatim>\<open>int(x)\<close> on a float64: ValueError on NaN, OverflowError on an infinity.\<close>

definition int_of_f64 :: "f64 \<Rightarrow> error + int" where
  "int_of_f64 x =
     (case x of NaN \<Rightarrow> Inl ValueError | Infinite \<Rightarrow> Inl OverflowError
              | Finite v \<Rightarrow> Inr (py_int v))"

text \<open>
  \<^verbatim>\<open>fps = int((len(times)-1) / (times[-1] - times[0]))\<close>. The difference of the two
  float64 time stamps is a float64; the integer \<^verbatim>\<open>len(times)-1\<close> is converted to
  float64 and divided by it.
\<close>

definition intrinsic_fps :: "real list \<Rightarrow> error + int" where
  "intrinsic_fps time_col =
     (case last_elem time_col of
        Inl e \<Rightarrow> Inl e
      | Inr t_last \<Rightarrow>
          (case first_elem time_col of
             Inl e \<Rightarrow> Inl e
           | Inr t_first \<Rightarrow>
               int_of_f64
                 (f64_div (f64_round (real_of_int (int (length time_col) - 1)))
                    (f64_sub t_last t_first))))"

text \<open>\<^verbatim>\<open>conv_fac_frame_rate = int(fps / target_framerate)\<close>\<close>

definition conv_fac_frame_rate :: "int \<Rightarrow> int \<Rightarrow> error + int" where
  "conv_fac_frame_rate fps target_framerate =
     (case truediv fps target_framerate of Inl e \<Rightarrow> Inl e | Inr q \<Rightarrow> Inr (py_int q))"

subsection \<open>import_trc: animating the markers\<close>

text \<open>
  The two branches on \<^verbatim>\<open>direction\<close>, with the reads in the order of the source. The
  result is the triple \<^verbatim>\<open>loc_x,loc_y,loc_z\<close> assigned to \<^verbatim>\<open>obj.location\<close>.
\<close>

definition read_location :: "string \<Rightarrow> real list list \<Rightarrow> nat \<Rightarrow> nat \<Rightarrow> error + vec3" where
  "read_location direction trc_data_np n i =
     (if direction = ''zup'' then
        (case at2 trc_data_np n (3 * i + 1) of
           Inl e \<Rightarrow> Inl e
         | Inr loc_x \<Rightarrow>
             (case at2 trc_data_np n (3 * i + 2) of
                Inl e \<Rightarrow> Inl e
              | Inr loc_z \<Rightarrow>
                  (case at2 trc_data_np n (3 * i + 3) of
                     Inl e \<Rightarrow> Inl e
                   | Inr v \<Rightarrow> Inr (loc_x, - v, loc_z))))
      else
        (case at2 trc_data_np n (3 * i + 1) of
           Inl e \<Rightarrow> Inl e
         | Inr loc_x \<Rightarrow>
             (case at2 trc_data_np n (3 * i + 3) of
                Inl e \<Rightarrow> Inl e
              | Inr loc_y \<Rightarrow>
                  (case at2 trc_data_np n (3 * i + 2) of
                     Inl e \<Rightarrow> Inl e
                   | Inr loc_z \<Rightarrow> Inr (loc_x, loc_y, loc_z)))))"

text \<open>\<^verbatim>\<open>marker_collection.objects[m]\<close>: the position of the first object named \<open>m\<close>.\<close>

fun object_index :: "bl_object list \<Rightarrow> string \<Rightarrow> nat option" where
  "object_index [] m = None"
| "object_index (ob # obs) m =
     (if ob_name ob = m then Some 0 else map_option Suc (object_index obs m))"

text \<open>\<^verbatim>\<open>frame=int(n/conv_fac_frame_rate)+1\<close>\<close>

definition frame_number :: "nat \<Rightarrow> int \<Rightarrow> error + int" where
  "frame_number n conv_fac =
     (case truediv (int n) conv_fac of Inl e \<Rightarrow> Inl e | Inr q \<Rightarrow> Inr (py_int q + 1))"

text \<open>
  The body of the loop over the samples, for trajectory \<open>i\<close>, the resolved object name
  \<open>m\<close> and the sample \<open>n\<close>: read the triple, look the object up, set its location, insert
  the keyframe.
\<close>

definition animate_sample ::
  "string \<Rightarrow> real list list \<Rightarrow> int \<Rightarrow> nat \<Rightarrow> string \<Rightarrow> nat \<Rightarrow> bl_collection
     \<Rightarrow> error option \<times> bl_collection" where
  "animate_sample direction trc_data_np conv_fac i m n marker_collection =
     (case read_location direction trc_data_np n i of
        Inl e \<Rightarrow> (Some e, marker_collection)
      | Inr loc \<Rightarrow>
          (case object_index (coll_objects marker_collection) m of
             None \<Rightarrow> (Some KeyError, marker_collection)
           | Some j \<Rightarrow>
               (let obs = coll_objects marker_collection;
                    obj = (obs ! j)\<lparr>ob_location := loc\<rparr>
                in case frame_number n conv_fac of
                     Inl e \<Rightarrow> (Some e, marker_collection\<lparr>coll_objects := obs[j := obj]\<rparr>)
                   | Inr frame \<Rightarrow>
                       (None, marker_collection\<lparr>coll_objects :=
                          obs[j := obj\<lparr>ob_keyframes := ob_keyframes obj @ [(frame, loc)]\<rparr>]\<rparr>))))"

text \<open>\<^verbatim>\<open>for n in range(0, len(times), conv_fac_frame_rate)\<close>, over the values of the range.\<close>

fun animate_samples ::
  "string \<Rightarrow> real list list \<Rightarrow> int \<Rightarrow> nat \<Rightarrow> string \<Rightarrow> nat list \<Rightarrow> bl_collection
     \<Rightarrow> error option \<times> bl_collection" where
  "animate_samples direction trc_data_np conv_fac i m [] marker_collection =
     (None, marker_collection)"
| "animate_samples direction trc_data_np conv_fac i m (n # ns) marker_collection =
     (case animate_sample direction trc_data_np conv_fac i m n marker_collection of
        (Some e, c) \<Rightarrow> (Some e, c)
      | (None, c) \<Rightarrow> animate_samples direction trc_data_np conv_fac i m ns c)"

text \<open>
  \<^verbatim>\<open>
    coll_marker_names = [ob.name for ob in marker_collection.objects]
    m = [coll_m for coll_m in coll_marker_names if m in coll_m][0]
  \<close>
\<close>

definition resolve_marker :: "bl_collection \<Rightarrow> string \<Rightarrow> error + string" where
  "resolve_marker marker_collection m =
     (let coll_marker_names = map ob_name (coll_objects marker_collection)
      in case filter (\<lambda>coll_m. contains coll_m m) coll_marker_names of
           [] \<Rightarrow> Inl IndexError
         | coll_m # _ \<Rightarrow> Inr coll_m)"

text \<open>The body of the loop over the marker names, for trajectory \<open>i\<close> with name \<open>m\<close>.\<close>

definition animate_marker ::
  "string \<Rightarrow> real list list \<Rightarrow> nat \<Rightarrow> int \<Rightarrow> nat \<Rightarrow> string \<Rightarrow> bl_collection
     \<Rightarrow> error option \<times> bl_collection" where
  "animate_marker direction trc_data_np len_times conv_fac i m marker_collection =
     (case resolve_marker marker_collection m of
        Inl e \<Rightarrow> (Some e, marker_collection)
      | Inr m' \<Rightarrow>
          (case py_range len_times conv_fac of
             Inl e \<Rightarrow> (Some e, marker_collection)
           | Inr ns \<Rightarrow> animate_samples direction trc_data_np conv_fac i m' ns marker_collection))"

text \<open>\<^verbatim>\<open>for i, m in enumerate(markerNames)\<close>, from index \<open>i\<close> on.\<close>

fun animate_markers ::
  "string \<Rightarrow> real list list \<Rightarrow> nat \<Rightarrow> int \<Rightarrow> nat \<Rightarrow> string list \<Rightarrow> bl_collection
     \<Rightarrow> error option \<times> bl_collection" where
  "animate_markers direction trc_data_np len_times conv_fac i [] marker_collection =
     (None, marker_collection)"
| "animate_markers direction trc_data_np len_times conv_fac i (m # ms) marker_collection =
     (case animate_marker direction trc_data_np len_times conv_fac i m marker_collection of
        (Some e, c) \<Rightarrow> (Some e, c)
      | (None, c) \<Rightarrow> animate_markers direction trc_data_np len_times conv_fac (Suc i) ms c)"

subsection \<open>import_trc\<close>

text \<open>
  \<^verbatim>\<open>import_trc(trc_path, direction, target_framerate)\<close> on the host state \<open>s\<close>. The new
  collection is linked into the scene before it is filled, so whatever happens to it
  afterwards is visible in the scene, also when the function raises. The importer of
  the \<^verbatim>\<open>io_anim_c3d\<close> add-on is a parameter, \<open>c3d_load\<close>.
\<close>

definition import_trc ::
  "(string list \<Rightarrow> nat \<Rightarrow> error + ndarray) \<Rightarrow> (string \<Rightarrow> string list option)
     \<Rightarrow> (string \<Rightarrow> bpy \<Rightarrow> error option \<times> bpy)
     \<Rightarrow> string \<Rightarrow> string \<Rightarrow> int \<Rightarrow> bpy \<Rightarrow> error option \<times> bpy" where
  "import_trc loadtxt fs c3d_load trc_path direction target_framerate s =
     (if endswith trc_path ''.trc'' then
        (case load_trc loadtxt fs trc_path of
           Inl e \<Rightarrow> (Some e, s)
         | Inr (trc_data_np, markerNames) \<Rightarrow>
             (let s1 = s\<lparr>render_fps := target_framerate\<rparr>
              in case column0 trc_data_np of
                   Inl e \<Rightarrow> (Some e, s1)
                 | Inr time_col \<Rightarrow>
                     (case intrinsic_fps time_col of
                        Inl e \<Rightarrow> (Some e, s1)
                      | Inr fps \<Rightarrow>
                          (case conv_fac_frame_rate fps target_framerate of
                             Inl e \<Rightarrow> (Some e, s1)
                           | Inr conv_fac \<Rightarrow>
                               (let marker_collection =
                                      create_markers markerNames
                                        \<lparr>coll_name = ''markers'', coll_objects = []\<rparr>;
                                    (r, c) = animate_markers direction trc_data_np (length time_col)
                                               conv_fac 0 markerNames marker_collection
                                in (r, s1\<lparr>scene_collections := scene_collections s1 @ [c]\<rparr>))))))
      else if endswith trc_path ''.c3d'' then
        c3d_load trc_path (s\<lparr>enabled_addons := enabled_addons s @ [''io_anim_c3d'']\<rparr>)
      else (None, s))"

subsection \<open>Notions used to state the properties\<close>

text \<open>\<^verbatim>\<open>sep.join(pieces)\<close>: how a header line carries its marker names.\<close>

fun join :: "string \<Rightarrow> string list \<Rightarrow> string" where
  "join sep [] = []"
| "join sep [p] = p"
| "join sep (p # q # ps) = p @ sep @ join sep (q # ps)"

text \<open>The map \<open>x' = x, y' = z, z' = -y\<close> that is to undo the z-up remapping.\<close>

definition zup_inverse :: "vec3 \<Rightarrow> vec3" where
  "zup_inverse p = (case p of (x, y, z) \<Rightarrow> (x, z, - y))"

text \<open>The marker object that \<open>addMarker\<close> creates for a name at the origin.\<close>

definition new_marker :: "string \<Rightarrow> bl_object" where
  "new_marker text =
     \<lparr>ob_name = text, ob_location = (0, 0, 0), ob_radius = RADIUS, ob_color = COLOR,
       ob_keyframes = []\<rparr>"

text \<open>
  The position the specification gives for sample \<open>n\<close> of trajectory \<open>i\<close>: with the raw
  triple \<open>(a, b, c)\<close> from columns \<open>3 * i + 1\<close>, \<open>3 * i + 2\<close>, \<open>3 * i + 3\<close> of row \<open>n\<close>, it
  is \<open>(a, - c, b)\<close> for \<^verbatim>\<open>zup\<close> and \<open>(a, c, b)\<close> otherwise. And the frame number it gives
  for sample \<open>n\<close> with stride \<open>k\<close>.
\<close>

definition spec_position :: "string \<Rightarrow> real list list \<Rightarrow> nat \<Rightarrow> nat \<Rightarrow> vec3" where
  "spec_position direction sample n i =
     (let a = sample ! n ! (3 * i + 1); b = sample ! n ! (3 * i + 2); c = sample ! n ! (3 * i + 3)
      in if direction = ''zup'' then (a, - c, b) else (a, c, b))"

definition spec_frame :: "int \<Rightarrow> nat \<Rightarrow> int" where
  "spec_frame k n = \<lfloor>real n / real_of_int k\<rfloor> + 1"


subsection \<open>Example inputs\<close>

text \<open>
  The lines before the data of a small \<^verbatim>\<open>.trc\<close> file, with the lines at indices 2 and 3
  left open, and the table that \<^verbatim>\<open>np.loadtxt\<close> reads from the data rows of such a file
  (frame number, time, then one coordinate triple per marker): five samples of two
  markers, half a second apart.
\<close>

definition header_line :: "string \<Rightarrow> string \<Rightarrow> string" where
  "header_line names tail = ''Frame#'' @ [TAB] @ ''Time'' @ [TAB] @ names @ tail"

definition trc_lines :: "string \<Rightarrow> string \<Rightarrow> string list" where
  "trc_lines line2 line3 =
     [''PathFileType'' @ [TAB] @ ''4'' @ [TAB] @ ''(X/Y/Z)'' @ [TAB] @ ''walk.trc'' @ [NL],
      ''DataRate'' @ [TAB] @ ''NumFrames'' @ [TAB] @ ''NumMarkers'' @ [NL],
      line2,
      line3,
      [TAB, TAB] @ ''X1'' @ [TAB] @ ''Y1'' @ [TAB] @ ''Z1'' @ [TAB] @ ''X2'' @ [TAB] @ ''Y2''
        @ [TAB] @ ''Z2'' @ [NL]]"

definition trc_table :: "real list list" where
  "trc_table =
     [[1, 0, 1, 2, 3, 4, 5, 6],
      [2, 1 / 2, 7, 8, 9, 10, 11, 12],
      [3, 1, 13, 14, 15, 16, 17, 18],
      [4, 3 / 2, 19, 20, 21, 22, 23, 24],
      [5, 2, 25, 26, 27, 28, 29, 30]]"

text \<open>
  The file \<^verbatim>\<open>walk.trc\<close> in full, every line with its terminator: three lines of
  file header, the line of marker names (left open), the line of coordinate labels, and
  the five data rows that \<open>trc_table\<close> is read from. \<open>walk_loadtxt\<close> stands for
  \<^verbatim>\<open>np.loadtxt\<close> on this file: it knows the five data rows and fails on any other text.
\<close>

definition tab_line :: "string list \<Rightarrow> string" where
  "tab_line parts = join [TAB] parts @ [NL]"

definition walk_rows :: "string list" where
  "walk_rows =
     [tab_line [''1'', ''0.0'', ''1.0'', ''2.0'', ''3.0'', ''4.0'', ''5.0'', ''6.0''],
      tab_line [''2'', ''0.5'', ''7.0'', ''8.0'', ''9.0'', ''10.0'', ''11.0'', ''12.0''],
      tab_line [''3'', ''1.0'', ''13.0'', ''14.0'', ''15.0'', ''16.0'', ''17.0'', ''18.0''],
      tab_line [''4'', ''1.5'', ''19.0'', ''20.0'', ''21.0'', ''22.0'', ''23.0'', ''24.0''],
      tab_line [''5'', ''2.0'', ''25.0'', ''26.0'', ''27.0'', ''28.0'', ''29.0'', ''30.0'']]"

definition walk_file :: "string \<Rightarrow> string list" where
  "walk_file line3 =
     [tab_line [''PathFileType'', ''4'', ''(X/Y/Z)'', ''walk.trc''],
      tab_line [''DataRate'', ''CameraRate'', ''NumFrames'', ''NumMarkers'', ''Units'',
                ''OrigDataRate'', ''OrigDataStartFrame'', ''OrigNumFrames''],
      tab_line [''2.00'', ''2.00'', ''5'', ''2'', ''m'', ''2.00'', ''1'', ''5''],
      line3,
      tab_line [[], [], ''X1'', ''Y1'', ''Z1'', ''X2'', ''Y2'', ''Z2'']]
     @ walk_rows"

definition walk_loadtxt :: "string list \<Rightarrow> nat \<Rightarrow> error + ndarray" where
  "walk_loadtxt ls k = (if drop k ls = walk_rows then Inr (Array2 trc_table) else Inl ValueError)"

definition walk_fs :: "string \<Rightarrow> string \<Rightarrow> string list option" where
  "walk_fs line3 p = (if p = ''walk.trc'' then Some (walk_file line3) else None)"

text \<open>The line of marker names as .trc files have it: the label \<^verbatim>\<open>Frame#	Time	\<close>, the
  names \<open>A\<close> and \<open>B\<close> joined by three tabs, then two tabs and the line terminator.\<close>

definition walk_names_line :: string where
  "walk_names_line = header_line (join [TAB, TAB, TAB] [''A'', ''B'']) [TAB, TAB, NL]"



definition scene0 :: bpy where
  "scene0 = \<lparr>render_fps = 24, scene_collections = [], enabled_addons = []\<rparr>"

text \<open>The collection after the markers \<open>A\<close> and \<open>B\<close> have been created.\<close>

definition two_markers :: bl_collection where
  "two_markers = create_markers [''A'', ''B''] \<lparr>coll_name = ''markers'', coll_objects = []\<rparr>"

text \<open>The collection after the markers \<open>LHip\<close> and \<open>Hip\<close> have been created, in this
  order: the second name occurs in the first.\<close>

definition hip_markers :: bl_collection where
  "hip_markers = create_markers [''LHip'', ''Hip''] \<lparr>coll_name = ''markers'', coll_objects = []\<rparr>"

section \<open>Properties\<close>

subsection \<open>Strings\<close>

lemma split_scan_piece:
  "d \<notin> set p \<Longrightarrow> split_scan d ds cur p = [cur @ p]"
  by (induction p arbitrary: cur) auto

lemma split_scan_piece_sep:
  "d \<notin> set p \<Longrightarrow> split_scan d ds cur (p @ d # ds @ r) = (cur @ p) # split_scan d ds [] r"
  by (induction p arbitrary: cur) (auto simp: startswith_def)

text \<open>Splitting undoes joining, for pieces that do not contain the separator's first
  character.\<close>

lemma split_scan_join:
  "ns \<noteq> [] \<Longrightarrow> list_all (\<lambda>n. d \<notin> set n) ns \<Longrightarrow> split_scan d ds [] (join (d # ds) ns) = ns"
proof (induction "d # ds" ns rule: join.induct)
  case 1
  then show ?case by simp
next
  case (2 p)
  then show ?case by (simp add: split_scan_piece)
next
  case (3 p q ps)
  then show ?case
    using split_scan_piece_sep [of d p ds "[]" "join (d # ds) (q # ps)"] by simp
qed

lemma split_scan_nonempty: "split_scan d ds cur s \<noteq> []"
  by (induction d ds cur s rule: split_scan.induct) auto

lemma slice_label_tail:
  "length label = 12 \<Longrightarrow> length tail = 3 \<Longrightarrow> slice_12_m3 (label @ body @ tail) = body"
  by (simp add: slice_12_m3_def)

lemma contains_iff: "contains s m \<longleftrightarrow> (\<exists>pre suf. s = pre @ m @ suf)"
proof (induction s)
  case Nil
  then show ?case by auto
next
  case (Cons c cs)
  show ?case
  proof
    assume "contains (c # cs) m"
    then consider "startswith (c # cs) m" | "contains cs m" by auto
    then show "\<exists>pre suf. c # cs = pre @ m @ suf"
    proof cases
      case 1
      then have "c # cs = [] @ m @ drop (length m) (c # cs)"
        unfolding startswith_def by (metis append_Nil append_take_drop_id)
      then show ?thesis by blast
    next
      case 2
      with Cons obtain pre suf where "cs = pre @ m @ suf" by auto
      then have "c # cs = (c # pre) @ m @ suf" by simp
      then show ?thesis by blast
    qed
  next
    assume "\<exists>pre suf. c # cs = pre @ m @ suf"
    then obtain pre suf where e: "c # cs = pre @ m @ suf" by auto
    show "contains (c # cs) m"
    proof (cases pre)
      case Nil
      with e have "startswith (c # cs) m" by (simp add: startswith_def)
      then show ?thesis by simp
    next
      case (Cons p pre')
      with e have "cs = pre' @ m @ suf" by simp
      with Cons.IH show ?thesis by auto
    qed
  qed
qed

lemma contains_self: "contains m m"
  by (simp add: contains_iff) (metis append_Nil append_Nil2)

subsection \<open>Integer arithmetic of the frame rates and of range\<close>

lemma py_int_nonneg: "0 \<le> x \<Longrightarrow> py_int x = \<lfloor>x\<rfloor>"
  by (simp add: py_int_def)

lemma py_int_of_int: "py_int (real_of_int z) = z"
  by (simp add: py_int_def)


lemma range_from_closed:
  "0 < step \<Longrightarrow>
     range_from n stop step = map (\<lambda>j. n + j * step) [0..<(stop - n + step - 1) div step]"
proof (induction n stop step rule: range_from.induct)
  case (1 n stop step)
  show ?case
  proof (cases "stop \<le> n")
    case True
    with "1.prems" show ?thesis by simp
  next
    case False
    let ?c = "(stop - (n + step) + step - 1) div step"
    have cnt: "(stop - n + step - 1) div step = Suc ?c"
    proof -
      from False have "stop - n + step - 1 = (stop - n - 1) + step" by arith
      then have "(stop - n + step - 1) div step = ((stop - n - 1) + step) div step"
        by (simp only:)
      also have "\<dots> = Suc ((stop - n - 1) div step)" using "1.prems" by simp
      also have "(stop - n - 1) div step = ?c"
      proof (cases "n + step \<le> stop")
        case True
        with "1.prems" have "stop - (n + step) + step - 1 = stop - n - 1" by arith
        then show ?thesis by (simp only:)
      next
        case False
        then have "stop - n - 1 < step" and "stop - (n + step) + step - 1 < step"
          using "1.prems" by arith+
        then show ?thesis by simp
      qed
      finally show ?thesis .
    qed
    have "range_from n stop step = n # range_from (n + step) stop step"
      using False "1.prems" by simp
    also have "\<dots> = n # map (\<lambda>j. n + step + j * step) [0..<?c]"
      using "1.IH" False "1.prems" by simp
    also have "\<dots> = map (\<lambda>j. n + j * step) [0..<Suc ?c]"
      by (simp add: upt_conv_Cons map_Suc_upt [symmetric] del: upt_Suc)
    finally show ?thesis using cnt by simp
  qed
qed

lemma retained_count:
  assumes "0 < k"
  shows "int ((stop + nat k - 1) div nat k) = \<lfloor>(real stop - 1) / real_of_int k\<rfloor> + 1"
proof -
  have "(real stop - 1) / real_of_int k = real_of_int (int stop - 1) / real_of_int k" by simp
  then have f: "\<lfloor>(real stop - 1) / real_of_int k\<rfloor> = (int stop - 1) div k"
    by (simp only: floor_divide_of_int_eq)
  show ?thesis
  proof (cases stop)
    case 0
    have "(- 1) div k = - 1" using assms by (simp add: zdiv_int div_eq_minus1)
    with 0 f assms show ?thesis by simp
  next
    case (Suc m)
    have "(Suc m + nat k - 1) div nat k = m div nat k + 1" using assms by simp
    moreover have "int (m div nat k) = int m div k" using assms by (simp add: zdiv_int)
    ultimately show ?thesis using Suc f by simp
  qed
qed

subsection \<open>Rounding to float64\<close>



















subsection \<open>The marker names\<close>

text \<open>With at least four lines in the file, the header is cut from the line at index 3:
  the iteration with \<open>i = 2\<close> has consumed line 2, and \<^verbatim>\<open>readline\<close> returns the next.\<close>

lemma read_header_line_3:
  assumes "3 < length file_lines"
  shows "read_header 0 file_lines None = Some (slice_12_m3 (file_lines ! 3))"
proof -
  from assms obtain l0 r0 where a: "file_lines = l0 # r0" and "2 < length r0"
    by (cases file_lines) auto
  then obtain l1 r1 where b: "r0 = l1 # r1" and "1 < length r1" by (cases r0) auto
  then obtain l2 r2 where c: "r1 = l2 # r2" and "0 < length r2" by (cases r1) auto
  then obtain l3 r3 where d: "r2 = l3 # r3" by (cases r2) auto
  show ?thesis
    using a b c d by (cases r3) (simp_all add: numeral_2_eq_2 numeral_3_eq_3)
qed

lemma markerNames_of_line_3:
  assumes "3 < length file_lines"
  shows "markerNames_of file_lines
           = Inr (split_scan TAB [TAB, TAB] [] (slice_12_m3 (file_lines ! 3)))"
  using read_header_line_3 [OF assms] by (simp add: markerNames_of_def str_split_def)

subsection \<open>The loop over the samples\<close>

lemma read_location_ok:
  "n < length a \<Longrightarrow> 3 * i + 3 < length (a ! n)
     \<Longrightarrow> read_location direction a n i = Inr (spec_position direction a n i)"
  by (simp add: read_location_def at2_def spec_position_def)

lemma read_location_Inr:
  assumes "read_location direction a n i = Inr p"
  shows "n < length a \<and> 3 * i + 3 < length (a ! n) \<and> p = spec_position direction a n i"
  using assms
  by (auto simp: read_location_def at2_def spec_position_def split: if_splits sum.splits)

lemma frame_number_pos: "0 < k \<Longrightarrow> frame_number n k = Inr (spec_frame k n)"
  by (simp add: frame_number_def truediv_def spec_frame_def py_int_nonneg)

lemma object_index_Some:
  "object_index obs m = Some j
     \<Longrightarrow> j < length obs \<and> ob_name (obs ! j) = m \<and> (\<forall>i<j. ob_name (obs ! i) \<noteq> m)"
proof (induction obs arbitrary: j)
  case Nil
  then show ?case by simp
next
  case (Cons ob obs)
  show ?case
  proof (cases "ob_name ob = m")
    case True
    with Cons.prems show ?thesis by simp
  next
    case False
    with Cons.prems obtain j' where j: "j = Suc j'" "object_index obs m = Some j'" by auto
    from Cons.IH [OF j(2)] False j(1) show ?thesis by (auto simp: less_Suc_eq_0_disj)
  qed
qed

lemma object_index_names:
  "map ob_name obs' = map ob_name obs \<Longrightarrow> object_index obs' m = object_index obs m"
proof (induction obs arbitrary: obs')
  case Nil
  then show ?case by simp
next
  case (Cons ob obs)
  from Cons.prems obtain ob' obs'' where e: "obs' = ob' # obs''" by (cases obs') auto
  from Cons.prems e have n: "ob_name ob' = ob_name ob" and r: "map ob_name obs'' = map ob_name obs"
    by simp_all
  from Cons.IH [OF r] n e show ?case by simp
qed

lemma names_list_update:
  assumes "ob_name ob = ob_name (obs ! j)"
  shows "map ob_name (obs[j := ob]) = map ob_name obs"
proof (cases "j < length obs")
  case True
  have "map ob_name (obs[j := ob]) = (map ob_name obs)[j := ob_name (obs ! j)]"
    using assms by (simp add: map_update)
  also have "\<dots> = (map ob_name obs)[j := map ob_name obs ! j]" using True by simp
  also have "\<dots> = map ob_name obs" by (rule list_update_id)
  finally show ?thesis .
next
  case False
  then have "obs[j := ob] = obs" by (simp add: list_update_beyond)
  then show ?thesis by (simp only:)
qed

lemma animate_sample_ok:
  assumes "n < length a" and "3 * i + 3 < length (a ! n)"
    and "object_index (coll_objects coll) m = Some j" and "0 < k"
  shows "animate_sample direction a k i m n coll =
           (None, coll\<lparr>coll_objects := (coll_objects coll)[j := (coll_objects coll ! j)
              \<lparr>ob_location := spec_position direction a n i,
                ob_keyframes := ob_keyframes (coll_objects coll ! j)
                   @ [(spec_frame k n, spec_position direction a n i)]\<rparr>]\<rparr>)"
  using assms
  by (simp add: animate_sample_def read_location_ok frame_number_pos Let_def)

lemma animate_sample_None:
  assumes "animate_sample direction a k i m n coll = (None, coll')" and "0 < k"
  shows "\<exists>j. object_index (coll_objects coll) m = Some j \<and> n < length a
           \<and> 3 * i + 3 < length (a ! n)
           \<and> coll' = coll\<lparr>coll_objects := (coll_objects coll)[j := (coll_objects coll ! j)
              \<lparr>ob_location := spec_position direction a n i,
                ob_keyframes := ob_keyframes (coll_objects coll ! j)
                   @ [(spec_frame k n, spec_position direction a n i)]\<rparr>]\<rparr>"
proof -
  from assms(1) obtain p where p: "read_location direction a n i = Inr p"
    by (auto simp: animate_sample_def split: sum.splits)
  from assms(1) p obtain j where j: "object_index (coll_objects coll) m = Some j"
    by (auto simp: animate_sample_def split: option.splits)
  note r = read_location_Inr [OF p]
  from r have "n < length a" "3 * i + 3 < length (a ! n)" by simp_all
  from animate_sample_ok [OF this j assms(2), of direction] assms(1) j r show ?thesis by auto
qed

lemma animate_samples_ok:
  assumes "list_all (\<lambda>n. n < length a \<and> 3 * i + 3 < length (a ! n)) ns"
    and "object_index (coll_objects coll) m = Some j" and "0 < k"
  shows "animate_samples direction a k i m ns coll =
           (None, coll\<lparr>coll_objects := (coll_objects coll)[j := (coll_objects coll ! j)
              \<lparr>ob_location := last (ob_location (coll_objects coll ! j)
                                     # map (\<lambda>n. spec_position direction a n i) ns),
                ob_keyframes := ob_keyframes (coll_objects coll ! j)
                   @ map (\<lambda>n. (spec_frame k n, spec_position direction a n i)) ns\<rparr>]\<rparr>)"
  using assms
proof (induction ns arbitrary: coll)
  case Nil
  then show ?case by simp
next
  case (Cons n ns)
  let ?obs = "coll_objects coll"
  let ?o1 = "(?obs ! j)\<lparr>ob_location := spec_position direction a n i,
                ob_keyframes := ob_keyframes (?obs ! j)
                   @ [(spec_frame k n, spec_position direction a n i)]\<rparr>"
  let ?c1 = "coll\<lparr>coll_objects := ?obs[j := ?o1]\<rparr>"
  from Cons.prems have n: "n < length a" "3 * i + 3 < length (a ! n)"
    and ns: "list_all (\<lambda>n. n < length a \<and> 3 * i + 3 < length (a ! n)) ns" by simp_all
  from object_index_Some [OF Cons.prems(2)] have j: "j < length ?obs" by simp
  have step: "animate_sample direction a k i m n coll = (None, ?c1)"
    by (rule animate_sample_ok [OF n Cons.prems(2) Cons.prems(3)])
  have "map ob_name (coll_objects ?c1) = map ob_name ?obs"
    by (simp add: names_list_update)
  from object_index_names [OF this] Cons.prems(2)
  have idx: "object_index (coll_objects ?c1) m = Some j" by simp
  have "animate_samples direction a k i m (n # ns) coll
          = animate_samples direction a k i m ns ?c1"
    using step by simp
  also note Cons.IH [OF ns idx Cons.prems(3)]
  finally show ?case using j by simp
qed

subsection \<open>Name resolution and the loop over one trajectory\<close>

lemma first_match:
  assumes "filter P xs = y # ys"
  shows "\<exists>idx<length xs. xs ! idx = y \<and> P y \<and> (\<forall>i<idx. \<not> P (xs ! i))"
proof -
  from assms obtain us vs where xs: "xs = us @ y # vs" and us: "\<forall>u\<in>set us. \<not> P u" and y: "P y"
    by (auto simp: filter_eq_Cons_iff)
  have "length us < length xs" using xs by simp
  moreover have "xs ! length us = y" using xs by simp
  moreover have "\<forall>i<length us. \<not> P (xs ! i)" using xs us by (simp add: nth_append)
  ultimately show ?thesis using y by blast
qed

lemma object_index_first:
  assumes "idx < length obs" and "\<forall>i<idx. ob_name (obs ! i) \<noteq> ob_name (obs ! idx)"
  shows "object_index obs (ob_name (obs ! idx)) = Some idx"
  using assms
proof (induction obs arbitrary: idx)
  case Nil
  then show ?case by simp
next
  case (Cons ob obs)
  show ?case
  proof (cases idx)
    case 0
    then show ?thesis by simp
  next
    case (Suc idx')
    from Cons.prems Suc have a: "idx' < length obs" by simp
    from Cons.prems(2) Suc have b: "\<forall>i<idx'. ob_name (obs ! i) \<noteq> ob_name (obs ! idx')"
      by (metis Suc_less_eq nth_Cons_Suc)
    from Cons.prems(2) Suc have c: "ob_name ob \<noteq> ob_name (obs ! idx')"
      by (metis nth_Cons_0 nth_Cons_Suc zero_less_Suc)
    from Cons.IH [OF a b] c Suc show ?thesis by simp
  qed
qed

lemma resolve_marker_Inr:
  assumes "resolve_marker coll m = Inr x"
  shows "\<exists>idx. object_index (coll_objects coll) x = Some idx \<and> idx < length (coll_objects coll)
           \<and> ob_name (coll_objects coll ! idx) = x \<and> contains x m
           \<and> (\<forall>i<idx. \<not> contains (ob_name (coll_objects coll ! i)) m)"
proof -
  let ?obs = "coll_objects coll"
  from assms obtain rest where "filter (\<lambda>coll_m. contains coll_m m) (map ob_name ?obs) = x # rest"
    by (auto simp: resolve_marker_def split: list.splits)
  from first_match [OF this] obtain idx where idx: "idx < length ?obs"
    and x: "ob_name (?obs ! idx) = x" and c: "contains x m"
    and f: "\<forall>i<idx. \<not> contains (ob_name (?obs ! i)) m" by auto
  from f x c idx have "\<forall>i<idx. ob_name (?obs ! i) \<noteq> ob_name (?obs ! idx)" by metis
  from object_index_first [OF idx this] x idx c f show ?thesis by auto
qed

lemma resolve_marker_Inl:
  assumes "resolve_marker coll m = Inl e"
  shows "e = IndexError \<and> list_all (\<lambda>ob. \<not> contains (ob_name ob) m) (coll_objects coll)"
proof -
  from assms have "filter (\<lambda>coll_m. contains coll_m m) (map ob_name (coll_objects coll)) = []"
    and "e = IndexError"
    by (auto simp: resolve_marker_def split: list.splits)
  then show ?thesis by (auto simp: filter_empty_conv list_all_iff)
qed

lemma resolve_marker_total:
  assumes "idx < length (coll_objects coll)" and "contains (ob_name (coll_objects coll ! idx)) m"
  shows "\<exists>x. resolve_marker coll m = Inr x"
proof (cases "resolve_marker coll m")
  case (Inl e)
  from resolve_marker_Inl [OF Inl] assms show ?thesis by (auto simp: list_all_length)
next
  case (Inr x)
  then show ?thesis by blast
qed

lemma py_range_pos:
  assumes "0 < k"
  shows "py_range stop k
           = Inr (map (\<lambda>j. j * nat k) [0..<nat (\<lfloor>(real stop - 1) / real_of_int k\<rfloor> + 1)])"
proof -
  have "nat (\<lfloor>(real stop - 1) / real_of_int k\<rfloor> + 1) = (stop + nat k - 1) div nat k"
    using retained_count [OF assms, of stop] by linarith
  then show ?thesis using assms range_from_closed [of "nat k" 0 stop]
    by (simp add: py_range_def)
qed

lemma range_from_bound: "list_all (\<lambda>x. x < stop) (range_from n stop step)"
proof (induction n stop step rule: range_from.induct)
  case (1 n stop step)
  show ?case
  proof (cases "step = 0 \<or> stop \<le> n")
    case True
    then show ?thesis by (subst range_from.simps) simp
  next
    case False
    with 1 have "list_all (\<lambda>x. x < stop) (range_from (n + step) stop step)" by blast
    with False show ?thesis by (subst range_from.simps) simp
  qed
qed

lemma py_range_bound:
  assumes "py_range stop k = Inr ns"
  shows "list_all (\<lambda>n. n < stop) ns"
proof (cases "0 < k")
  case True
  with assms have "ns = range_from 0 stop (nat k)" by (simp add: py_range_def)
  then show ?thesis by (simp only: range_from_bound)
next
  case False
  with assms have "ns = []" by (simp add: py_range_def split: if_splits)
  then show ?thesis by simp
qed

lemma animate_marker_ok:
  assumes "0 < k" and "len \<le> length a" and "\<forall>n<len. 3 * i + 3 < length (a ! n)"
    and "resolve_marker coll m = Inr m'"
  shows "\<exists>j. object_index (coll_objects coll) m' = Some j \<and>
          animate_marker direction a len k i m coll =
           (None, coll\<lparr>coll_objects := (coll_objects coll)[j := (coll_objects coll ! j)
              \<lparr>ob_location := last (ob_location (coll_objects coll ! j)
                  # map (\<lambda>q. spec_position direction a (q * nat k) i)
                      [0..<nat (\<lfloor>(real len - 1) / real_of_int k\<rfloor> + 1)]),
                ob_keyframes := ob_keyframes (coll_objects coll ! j)
                   @ map (\<lambda>q. (int q + 1, spec_position direction a (q * nat k) i))
                       [0..<nat (\<lfloor>(real len - 1) / real_of_int k\<rfloor> + 1)]\<rparr>]\<rparr>)"
proof -
  let ?ns = "map (\<lambda>j. j * nat k) [0..<nat (\<lfloor>(real len - 1) / real_of_int k\<rfloor> + 1)]"
  from resolve_marker_Inr [OF assms(4)] obtain j
    where j: "object_index (coll_objects coll) m' = Some j" by blast
  have r: "py_range len k = Inr ?ns" by (rule py_range_pos [OF assms(1)])
  from py_range_bound [OF r] assms(2,3)
  have shape: "list_all (\<lambda>n. n < length a \<and> 3 * i + 3 < length (a ! n)) ?ns"
    by (auto simp: list_all_iff)
  have fr: "spec_frame k (q * nat k) = int q + 1" for q
    using assms(1) by (simp add: spec_frame_def)
  have "animate_marker direction a len k i m coll
          = animate_samples direction a k i m' ?ns coll"
    using assms(4) r by (simp add: animate_marker_def)
  also note animate_samples_ok [OF shape j assms(1)]
  finally show ?thesis using j by (simp add: o_def fr)
qed

lemma animate_marker_zero:
  "animate_marker direction a len 0 i m coll
     = (Some (case resolve_marker coll m of Inl e \<Rightarrow> e | Inr x \<Rightarrow> ValueError), coll)"
  by (simp add: animate_marker_def py_range_def split: sum.splits)

lemma first_match_conv:
  assumes "idx < length xs" and "P (xs ! idx)" and "\<forall>l<idx. \<not> P (xs ! l)"
  shows "\<exists>rest. filter P xs = xs ! idx # rest"
proof -
  have xs: "xs = take idx xs @ xs ! idx # drop (Suc idx) xs"
    using assms(1) by (rule id_take_nth_drop)
  have "filter P (take idx xs) = []"
    using assms(1,3) by (auto simp: filter_empty_conv in_set_conv_nth)
  then have "filter P (take idx xs @ xs ! idx # drop (Suc idx) xs)
               = xs ! idx # filter P (drop (Suc idx) xs)"
    using assms(2) by simp
  with xs show ?thesis by metis
qed

lemma resolve_marker_iff:
  "resolve_marker c m = Inr x \<longleftrightarrow>
     (\<exists>idx<length (coll_objects c). x = ob_name (coll_objects c ! idx) \<and> contains x m
        \<and> (\<forall>l<idx. \<not> contains (ob_name (coll_objects c ! l)) m)
        \<and> object_index (coll_objects c) x = Some idx)"
proof
  assume "resolve_marker c m = Inr x"
  from resolve_marker_Inr [OF this] show "\<exists>idx<length (coll_objects c).
        x = ob_name (coll_objects c ! idx) \<and> contains x m
        \<and> (\<forall>l<idx. \<not> contains (ob_name (coll_objects c ! l)) m)
        \<and> object_index (coll_objects c) x = Some idx"
    by blast
next
  assume "\<exists>idx<length (coll_objects c). x = ob_name (coll_objects c ! idx) \<and> contains x m
        \<and> (\<forall>l<idx. \<not> contains (ob_name (coll_objects c ! l)) m)
        \<and> object_index (coll_objects c) x = Some idx"
  then obtain idx where idx: "idx < length (coll_objects c)"
    and x: "x = ob_name (coll_objects c ! idx)" and c: "contains x m"
    and f: "\<forall>l<idx. \<not> contains (ob_name (coll_objects c ! l)) m" by blast
  let ?ns = "map ob_name (coll_objects c)"
  have "\<exists>rest. filter (\<lambda>coll_m. contains coll_m m) ?ns = ?ns ! idx # rest"
    using idx x c f by (intro first_match_conv) simp_all
  then show "resolve_marker c m = Inr x"
    using idx x by (auto simp: resolve_marker_def)
qed

subsection \<open>Creating the markers, and the loops with a zero stride\<close>

lemma create_markers_eq:
  "create_markers names c = c\<lparr>coll_objects := coll_objects c @ map new_marker names\<rparr>"
  by (induction names arbitrary: c) (simp_all add: addMarker_def new_marker_def)

lemma load_trc_names_nonempty:
  assumes "load_trc loadtxt fs trc_path = Inr (trc_data_np, markerNames)"
  shows "markerNames \<noteq> []"
proof -
  from assms obtain file_lines where "markerNames_of file_lines = Inr markerNames"
    by (auto simp: load_trc_def split: option.splits sum.splits)
  then obtain h where "markerNames = split_scan TAB [TAB, TAB] [] h"
    by (auto simp: markerNames_of_def str_split_def split: option.splits)
  then show ?thesis by (simp add: split_scan_nonempty)
qed

lemma animate_markers_zero:
  assumes "markerNames \<noteq> []"
  shows "animate_markers direction a len 0 0 markerNames
           (create_markers markerNames \<lparr>coll_name = n, coll_objects = []\<rparr>)
         = (Some ValueError, \<lparr>coll_name = n, coll_objects = map new_marker markerNames\<rparr>)"
proof -
  from assms obtain m ms where ms: "markerNames = m # ms" by (cases markerNames) auto
  let ?c = "\<lparr>coll_name = n, coll_objects = map new_marker (m # ms)\<rparr>"
  have c: "create_markers markerNames \<lparr>coll_name = n, coll_objects = []\<rparr> = ?c"
    using ms by (simp add: create_markers_eq)
  have "resolve_marker ?c m = Inr m"
    by (simp add: resolve_marker_def new_marker_def contains_self)
  then have "animate_marker direction a len 0 0 m ?c = (Some ValueError, ?c)"
    by (simp add: animate_marker_zero)
  then show ?thesis unfolding c using ms by simp
qed

subsection \<open>Facts about the example inputs\<close>

lemma hip_markers_objects: "coll_objects hip_markers = [new_marker ''LHip'', new_marker ''Hip'']"
  by (simp add: hip_markers_def create_markers_eq)

lemma two_markers_objects: "coll_objects two_markers = [new_marker ''A'', new_marker ''B'']"
  by (simp add: two_markers_def addMarker_def new_marker_def)

lemma trc_table_shape:
  "length (map (drop 1) trc_table) = 5"
  "\<forall>n<5. 3 * i + 3 < length (map (drop 1) trc_table ! n)" if "i < 2"
proof -
  show "length (map (drop 1) trc_table) = 5" by (simp add: trc_table_def)
  have "list_all (\<lambda>row. 3 * i + 3 < length row) (map (drop 1) trc_table)"
    using that by (simp add: trc_table_def)
  then show "\<forall>n<5. 3 * i + 3 < length (map (drop 1) trc_table ! n)"
    by (simp add: list_all_length trc_table_def)
qed

lemma walk_file_load:
  "load_trc walk_loadtxt (walk_fs walk_names_line) ''walk.trc''
     = Inr (map (drop 1) trc_table, [''A'', ''B''])"
  by (simp add: load_trc_def walk_loadtxt_def walk_fs_def walk_file_def walk_rows_def
      walk_names_line_def header_line_def tab_line_def drop_first_column_def markerNames_of_def
      str_split_def slice_12_m3_def startswith_def TAB_def NL_def)

lemma walk_fps: "intrinsic_fps [0, 1 / 2, 1, 3 / 2, 2] = Inr 2"
  by (simp add: intrinsic_fps_def last_elem_def first_elem_def int_of_f64_def f64_div_def
      f64_sub_def f64_round_def binary_exponent_def round_half_even_def compute_bitlen
      py_int_def Let_def)


section \<open>The claims\<close>

subsection \<open>Marker names\<close>

text \<open>
  C1 (amended). The claim has the names read from the line at index 2. The loop reaches
  \<open>i = 2\<close> holding line 2 and then calls \<^verbatim>\<open>readline\<close>, so the header is the line at
  index 3. For a file with at least four lines that numpy parses into a table,
  \<open>load_trc\<close> returns the table without its first column and the names obtained from
  line 3 by dropping its first 12 and its last 3 characters and splitting the rest at
  every run of three tabs. In particular, when line 3 is a 12-character label, then
  names without a tab joined by three tabs, then 3 more characters (in a .trc file: two
  tabs and the line terminator), the result is exactly these names.
\<close>

theorem load_trc_names_from_line_3:
  assumes "fs trc_path = Some file_lines"
    and "loadtxt file_lines 5 = Inr (Array2 rows)"
    and "3 < length file_lines"
  shows "\<exists>names. load_trc loadtxt fs trc_path = Inr (map (drop 1) rows, names)
           \<and> str_split (drop 12 (take (length (file_lines ! 3) - 3) (file_lines ! 3)))
                 [TAB, TAB, TAB] = Inr names
           \<and> (\<forall>label ns tail.
                 file_lines ! 3 = label @ join [TAB, TAB, TAB] ns @ tail \<and> length label = 12
                   \<and> length tail = 3 \<and> ns \<noteq> [] \<and> list_all (\<lambda>n. TAB \<notin> set n) ns
                 \<longrightarrow> names = ns)"
proof -
  let ?names = "split_scan TAB [TAB, TAB] [] (slice_12_m3 (file_lines ! 3))"
  have 1: "load_trc loadtxt fs trc_path = Inr (map (drop 1) rows, ?names)"
    using assms markerNames_of_line_3 [OF assms(3)]
    by (simp add: load_trc_def drop_first_column_def)
  have 2: "str_split (drop 12 (take (length (file_lines ! 3) - 3) (file_lines ! 3)))
             [TAB, TAB, TAB] = Inr ?names"
    by (simp add: str_split_def slice_12_m3_def)
  have 3: "?names = ns"
    if "file_lines ! 3 = label @ join [TAB, TAB, TAB] ns @ tail" "length label = 12"
      "length tail = 3" "ns \<noteq> []" "list_all (\<lambda>n. TAB \<notin> set n) ns" for label ns tail
    using that by (simp add: slice_label_tail split_scan_join)
  from 1 2 3 show ?thesis by blast
qed

text \<open>The file \<^verbatim>\<open>walk.trc\<close>: its line 3 is the label \<^verbatim>\<open>Frame#\tTime\t\<close>, then \<open>A\<close> and \<open>B\<close>
  joined by three tabs, then two tabs and the line terminator.\<close>

theorem load_trc_names_from_line_3_witness:
  "load_trc walk_loadtxt (walk_fs walk_names_line) ''walk.trc''
     = Inr (map (drop 1) trc_table, [''A'', ''B''])
   \<and> walk_file walk_names_line ! 3
       = (''Frame#'' @ [TAB] @ ''Time'' @ [TAB]) @ join [TAB, TAB, TAB] [''A'', ''B'']
           @ [TAB, TAB, NL]"
proof -
  let ?file = "walk_file walk_names_line"
  have a: "walk_fs walk_names_line ''walk.trc'' = Some ?file" by (simp add: walk_fs_def)
  have b: "walk_loadtxt ?file 5 = Inr (Array2 trc_table)"
    by (simp add: walk_loadtxt_def walk_file_def)
  have c: "3 < length ?file" by (simp add: walk_file_def)
  have d: "?file ! 3 = (''Frame#'' @ [TAB] @ ''Time'' @ [TAB])
             @ join [TAB, TAB, TAB] [''A'', ''B''] @ [TAB, TAB, NL]"
    by (simp add: walk_file_def walk_names_line_def header_line_def)
  have e: "list_all (\<lambda>n. TAB \<notin> set n) [''A'', ''B'']" by (simp add: TAB_def)
  from load_trc_names_from_line_3
    [of "walk_fs walk_names_line" "''walk.trc''" ?file walk_loadtxt trc_table, OF a b c]
  obtain names
    where n: "load_trc walk_loadtxt (walk_fs walk_names_line) ''walk.trc''
                = Inr (map (drop 1) trc_table, names)"
      and r: "\<And>label ns tail. ?file ! 3 = label @ join [TAB, TAB, TAB] ns @ tail
                \<Longrightarrow> length label = 12 \<Longrightarrow> length tail = 3 \<Longrightarrow> ns \<noteq> []
                \<Longrightarrow> list_all (\<lambda>n. TAB \<notin> set n) ns \<Longrightarrow> names = ns"
    by blast
  have "names = [''A'', ''B'']"
    by (rule r [OF d _ _ _ e]) simp_all
  with n d show ?thesis by simp
qed

text \<open>
  Against the claim as stated, on the same file: its line 2 is the line of values of the
  file header, and cutting and splitting that line gives one piece, \<^verbatim>\<open>2\tm\t2.00\t1\<close>,
  where the loader returns \<open>A\<close> and \<open>B\<close>. And with the header of the claim's example on
  line 3 (the names followed by three tabs, then the line terminator that every line
  before the data has) the loader returns \<open>A\<close> and \<open>B\<close> followed by a tab.
\<close>

theorem load_trc_names_line_2_counterexample:
  "load_trc walk_loadtxt (walk_fs walk_names_line) ''walk.trc''
     = Inr (map (drop 1) trc_table, [''A'', ''B''])
   \<and> walk_file walk_names_line ! 2
       = tab_line [''2.00'', ''2.00'', ''5'', ''2'', ''m'', ''2.00'', ''1'', ''5'']
   \<and> str_split
        (drop 12 (take (length (walk_file walk_names_line ! 2) - 3)
                   (walk_file walk_names_line ! 2)))
        [TAB, TAB, TAB]
       = Inr [join [TAB] [''2'', ''m'', ''2.00'', ''1'']]
   \<and> load_trc walk_loadtxt
         (walk_fs (header_line (join [TAB, TAB, TAB] [''A'', ''B'']) [TAB, TAB, TAB, NL]))
         ''walk.trc''
       = Inr (map (drop 1) trc_table, [''A'', ''B'' @ [TAB]])"
  by (simp add: load_trc_def walk_loadtxt_def walk_fs_def walk_file_def walk_rows_def
      walk_names_line_def header_line_def tab_line_def drop_first_column_def markerNames_of_def
      str_split_def slice_12_m3_def startswith_def TAB_def NL_def)

subsection \<open>Dispatch on the extension\<close>

text \<open>
  C2 (amended). The claim has the import fail on a path with neither extension.
  \<open>import_trc\<close> has an \<^verbatim>\<open>if\<close> for \<^verbatim>\<open>.trc\<close>, an \<^verbatim>\<open>elif\<close> for \<^verbatim>\<open>.c3d\<close> and no
  \<^verbatim>\<open>else\<close>: on every other path it returns normally, raises nothing and leaves the
  host as it was.
\<close>

theorem import_trc_other_extension:
  assumes "\<not> endswith trc_path ''.trc''" and "\<not> endswith trc_path ''.c3d''"
  shows "import_trc loadtxt fs c3d_load trc_path direction target_framerate s = (None, s)"
  using assms by (simp add: import_trc_def)

theorem import_trc_other_extension_witness:
  "\<not> endswith ''walk.txt'' ''.trc'' \<and> \<not> endswith ''walk.txt'' ''.c3d''
   \<and> import_trc (\<lambda>ls k. Inr (Array2 trc_table)) (\<lambda>p. Some (trc_lines [] []))
         (\<lambda>p s. (Some KeyError, s)) ''walk.txt'' ''zup'' 30 scene0
       = (None, scene0)"
proof -
  have a: "\<not> endswith ''walk.txt'' ''.trc''" and b: "\<not> endswith ''walk.txt'' ''.c3d''"
    by (simp_all add: endswith_def)
  from a b import_trc_other_extension [OF a b] show ?thesis by simp
qed

text \<open>Against the claim as stated: on a path ending in \<^verbatim>\<open>.csv\<close> no error is raised.\<close>

theorem import_trc_other_extension_counterexample:
  "\<not> endswith ''walk.csv'' ''.trc'' \<and> \<not> endswith ''walk.csv'' ''.c3d''
   \<and> fst (import_trc (\<lambda>ls k. Inr (Array2 trc_table)) (\<lambda>p. Some (trc_lines [] []))
           (\<lambda>p s. (Some KeyError, s)) ''walk.csv'' ''zup'' 30 scene0)
       = None"
  by (simp add: import_trc_def endswith_def)

subsection \<open>Frame rates and decimation\<close>







text \<open>
  C5. With a positive decimation factor \<open>k\<close>, the loop over the samples of one
  trajectory walks exactly \<open>\<lfloor>(num_samples - 1) / k\<rfloor> + 1\<close> samples: that is the length
  of \<^verbatim>\<open>range(0, len(times), k)\<close>, and on a table with \<open>num_samples\<close> rows that are wide
  enough for trajectory \<open>i\<close>, whose name resolves to an object, the loop returns
  normally and that object has received as many keyframes. When the target rate equals
  the (non-zero) intrinsic rate the stride is 1 and every sample is walked. Intrinsic
  rate 120 and target rate 30 give stride 4, and 121 samples then give 31 walked samples.
\<close>

theorem retained_samples:
  assumes "0 < k" and "len_times \<le> length trc_data_np"
    and "\<forall>n<len_times. 3 * i + 3 < length (trc_data_np ! n)"
    and "resolve_marker marker_collection m = Inr m'"
  shows "(\<exists>ns. py_range len_times k = Inr ns
            \<and> int (length ns) = \<lfloor>(real len_times - 1) / real_of_int k\<rfloor> + 1)
         \<and> (\<exists>j c. object_index (coll_objects marker_collection) m' = Some j
               \<and> animate_marker direction trc_data_np len_times k i m marker_collection = (None, c)
               \<and> int (length (ob_keyframes (coll_objects c ! j)))
                    = int (length (ob_keyframes (coll_objects marker_collection ! j)))
                      + (\<lfloor>(real len_times - 1) / real_of_int k\<rfloor> + 1))
         \<and> (f \<noteq> 0 \<longrightarrow> conv_fac_frame_rate f f = Inr 1 \<and> py_range len_times 1 = Inr [0..<len_times])
         \<and> conv_fac_frame_rate 120 30 = Inr 4
         \<and> (\<exists>ns. py_range 121 4 = Inr ns \<and> length ns = 31)"
proof -
  have cnt: "int (nat (\<lfloor>(real stop - 1) / real_of_int q\<rfloor> + 1))
               = \<lfloor>(real stop - 1) / real_of_int q\<rfloor> + 1" if "0 < q" for stop q
    using retained_count [OF that, of stop] by linarith
  have 1: "\<exists>ns. py_range len_times k = Inr ns
            \<and> int (length ns) = \<lfloor>(real len_times - 1) / real_of_int k\<rfloor> + 1"
    using py_range_pos [OF assms(1), of len_times] cnt [OF assms(1), of len_times] by simp
  from animate_marker_ok [OF assms, of direction] obtain j c
    where j: "object_index (coll_objects marker_collection) m' = Some j"
      and r: "animate_marker direction trc_data_np len_times k i m marker_collection = (None, c)"
      and c: "c = marker_collection\<lparr>coll_objects := (coll_objects marker_collection)
                [j := (coll_objects marker_collection ! j)
              \<lparr>ob_location := last (ob_location (coll_objects marker_collection ! j)
                  # map (\<lambda>q. spec_position direction trc_data_np (q * nat k) i)
                      [0..<nat (\<lfloor>(real len_times - 1) / real_of_int k\<rfloor> + 1)]),
                ob_keyframes := ob_keyframes (coll_objects marker_collection ! j)
                   @ map (\<lambda>q. (int q + 1, spec_position direction trc_data_np (q * nat k) i))
                       [0..<nat (\<lfloor>(real len_times - 1) / real_of_int k\<rfloor> + 1)]\<rparr>]\<rparr>"
    by blast
  from object_index_Some [OF j] have "j < length (coll_objects marker_collection)" by simp
  with c have "int (length (ob_keyframes (coll_objects c ! j)))
                    = int (length (ob_keyframes (coll_objects marker_collection ! j)))
                      + (\<lfloor>(real len_times - 1) / real_of_int k\<rfloor> + 1)"
    using cnt [OF assms(1), of len_times] by simp
  with j r have 2: "\<exists>j c. object_index (coll_objects marker_collection) m' = Some j
               \<and> animate_marker direction trc_data_np len_times k i m marker_collection = (None, c)
               \<and> int (length (ob_keyframes (coll_objects c ! j)))
                    = int (length (ob_keyframes (coll_objects marker_collection ! j)))
                      + (\<lfloor>(real len_times - 1) / real_of_int k\<rfloor> + 1)"
    by blast
  have 3: "conv_fac_frame_rate f f = Inr 1 \<and> py_range len_times 1 = Inr [0..<len_times]"
    if "f \<noteq> 0"
  proof -
    have "conv_fac_frame_rate f f = Inr 1"
      using that by (simp add: conv_fac_frame_rate_def truediv_def py_int_def)
    moreover have "py_range len_times 1 = Inr (map (\<lambda>j. j) [0..<len_times])"
      using py_range_pos [of 1 len_times] by simp
    ultimately show ?thesis by simp
  qed
  have 4: "conv_fac_frame_rate 120 30 = Inr 4"
    by (simp add: conv_fac_frame_rate_def truediv_def py_int_def)
  have 5: "\<exists>ns. py_range 121 4 = Inr ns \<and> length ns = 31"
    using py_range_pos [of 4 121] by simp
  from 1 2 3 4 5 show ?thesis by blast
qed


theorem retained_samples_witness:
  "py_range 5 2 = Inr [0, 2, 4]
   \<and> (\<exists>c. animate_marker ''zup'' (map (drop 1) trc_table) 5 2 0 ''A'' two_markers = (None, c)
          \<and> length (ob_keyframes (coll_objects c ! 0)) = 3)"
proof -
  let ?a = "map (drop 1) trc_table"
  have a: "(0::int) < 2" by simp
  have b: "5 \<le> length ?a" by (simp add: trc_table_def)
  have c: "\<forall>n<5. 3 * 0 + 3 < length (?a ! n)" using trc_table_shape(2) [of 0] by simp
  have d: "resolve_marker two_markers ''A'' = Inr ''A''"
    by (simp add: resolve_marker_def two_markers_objects new_marker_def startswith_def)
  have e: "object_index (coll_objects two_markers) ''A'' = Some 0"
    by (simp add: two_markers_objects new_marker_def)
  have f: "\<lfloor>(real 5 - 1) / real_of_int 2\<rfloor> + 1 = 3" by simp
  from retained_samples [OF a b c d, of "''zup''" 1] e f
  have "(\<exists>ns. py_range 5 2 = Inr ns \<and> int (length ns) = 3)
         \<and> (\<exists>c. animate_marker ''zup'' ?a 5 2 0 ''A'' two_markers = (None, c)
               \<and> int (length (ob_keyframes (coll_objects c ! 0)))
                    = int (length (ob_keyframes (coll_objects two_markers ! 0))) + 3)"
    by simp
  moreover have "py_range 5 2 = Inr [0, 2, 4]" using py_range_pos [of 2 5] by (simp add: upt_rec)
  ultimately show ?thesis by (simp add: two_markers_objects new_marker_def)
qed

subsection \<open>Keyframes\<close>

text \<open>
  C6. With a positive stride \<open>k\<close>, when the loop body for sample \<open>n\<close> completes, it has
  appended one keyframe to the object, at frame \<open>\<lfloor>n / k\<rfloor> + 1\<close>: frame 1 for \<open>n = 0\<close>, and
  frame \<open>q + 1\<close> for the \<open>q\<close>-th walked sample \<open>n = q * k\<close>.
\<close>

theorem keyframe_frame_number:
  assumes "0 < k"
    and "animate_sample direction trc_data_np k i m n marker_collection = (None, c)"
  shows "\<exists>j loc frame.
           object_index (coll_objects marker_collection) m = Some j
           \<and> ob_keyframes (coll_objects c ! j)
               = ob_keyframes (coll_objects marker_collection ! j) @ [(frame, loc)]
           \<and> frame = \<lfloor>real n / real_of_int k\<rfloor> + 1
           \<and> (n = 0 \<longrightarrow> frame = 1)
           \<and> (\<forall>q. n = q * nat k \<longrightarrow> frame = int q + 1)"
proof -
  from animate_sample_None [OF assms(2) assms(1)] obtain j
    where j: "object_index (coll_objects marker_collection) m = Some j"
      and c: "c = marker_collection\<lparr>coll_objects := (coll_objects marker_collection)
                [j := (coll_objects marker_collection ! j)
                  \<lparr>ob_location := spec_position direction trc_data_np n i,
                    ob_keyframes := ob_keyframes (coll_objects marker_collection ! j)
                       @ [(spec_frame k n, spec_position direction trc_data_np n i)]\<rparr>]\<rparr>"
    by blast
  from object_index_Some [OF j] have "j < length (coll_objects marker_collection)" by simp
  with c have "ob_keyframes (coll_objects c ! j)
               = ob_keyframes (coll_objects marker_collection ! j)
                   @ [(spec_frame k n, spec_position direction trc_data_np n i)]"
    by simp
  moreover have "spec_frame k n = \<lfloor>real n / real_of_int k\<rfloor> + 1" by (simp add: spec_frame_def)
  moreover have "spec_frame k 0 = 1" by (simp add: spec_frame_def)
  moreover have "spec_frame k (q * nat k) = int q + 1" for q
    using assms(1) by (simp add: spec_frame_def)
  ultimately show ?thesis using j by blast
qed

theorem keyframe_frame_number_witness:
  "animate_sample ''zup'' (map (drop 1) trc_table) 2 1 ''B'' 4 two_markers
     = (None, two_markers\<lparr>coll_objects :=
          [new_marker ''A'',
           (new_marker ''B'')\<lparr>ob_location := (28, - 30, 29),
                                ob_keyframes := [(3, (28, - 30, 29))]\<rparr>]\<rparr>)
   \<and> (3::int) = \<lfloor>real 4 / real_of_int 2\<rfloor> + 1"
proof -
  let ?a = "map (drop 1) trc_table"
  have a: "(0::int) < 2" by simp
  have e: "object_index (coll_objects two_markers) ''B'' = Some 1"
    by (simp add: two_markers_objects new_marker_def)
  have n: "4 < length ?a" "3 * 1 + 3 < length (?a ! 4)" by (simp_all add: trc_table_def)
  have r: "animate_sample ''zup'' ?a 2 1 ''B'' 4 two_markers
     = (None, two_markers\<lparr>coll_objects :=
          [new_marker ''A'',
           (new_marker ''B'')\<lparr>ob_location := (28, - 30, 29),
                                ob_keyframes := [(3, (28, - 30, 29))]\<rparr>]\<rparr>)"
    using animate_sample_ok [OF n e a, of "''zup''"]
    by (simp add: two_markers_objects new_marker_def spec_position_def spec_frame_def
        trc_table_def)
  from keyframe_frame_number [OF a r] r show ?thesis by simp
qed

text \<open>
  C7. For trajectory \<open>i\<close> and sample \<open>n\<close> inside the table, with the raw triple
  \<open>(a, b, c)\<close> in columns \<open>3 * i + 1\<close>, \<open>3 * i + 2\<close>, \<open>3 * i + 3\<close> of row \<open>n\<close>: the loop body
  sets the location of the object to \<open>(a, - c, b)\<close> when the direction is \<^verbatim>\<open>zup\<close> and to
  \<open>(a, c, b)\<close> otherwise, so in particular for \<^verbatim>\<open>yup\<close>.
\<close>

theorem marker_position_remap:
  assumes "n < length trc_data_np" and "3 * i + 3 < length (trc_data_np ! n)"
    and "object_index (coll_objects marker_collection) m = Some j" and "0 < k"
    and "a = trc_data_np ! n ! (3 * i + 1)" and "b = trc_data_np ! n ! (3 * i + 2)"
    and "c = trc_data_np ! n ! (3 * i + 3)"
  shows "read_location direction trc_data_np n i
           = Inr (if direction = ''zup'' then (a, - c, b) else (a, c, b))
         \<and> (\<exists>coll'. animate_sample direction trc_data_np k i m n marker_collection = (None, coll')
               \<and> ob_location (coll_objects coll' ! j)
                    = (if direction = ''zup'' then (a, - c, b) else (a, c, b)))"
proof -
  have p: "spec_position direction trc_data_np n i
             = (if direction = ''zup'' then (a, - c, b) else (a, c, b))"
    using assms(5-7) by (simp add: spec_position_def)
  from object_index_Some [OF assms(3)] have j: "j < length (coll_objects marker_collection)"
    by simp
  from read_location_ok [OF assms(1,2), of direction] p
  have 1: "read_location direction trc_data_np n i
           = Inr (if direction = ''zup'' then (a, - c, b) else (a, c, b))" by simp
  from animate_sample_ok [OF assms(1-4), of direction] p j
  have 2: "\<exists>coll'. animate_sample direction trc_data_np k i m n marker_collection = (None, coll')
               \<and> ob_location (coll_objects coll' ! j)
                    = (if direction = ''zup'' then (a, - c, b) else (a, c, b))" by simp
  from 1 2 show ?thesis by blast
qed

theorem marker_position_remap_witness:
  "read_location ''zup'' (map (drop 1) trc_table) 2 1 = Inr (16, - 18, 17)
   \<and> read_location ''yup'' (map (drop 1) trc_table) 2 1 = Inr (16, 18, 17)
   \<and> (\<exists>coll'. animate_sample ''zup'' (map (drop 1) trc_table) 1 1 ''B'' 2 two_markers = (None, coll')
               \<and> ob_location (coll_objects coll' ! 1) = (16, - 18, 17))
   \<and> (\<exists>coll'. animate_sample ''yup'' (map (drop 1) trc_table) 1 1 ''B'' 2 two_markers = (None, coll')
               \<and> ob_location (coll_objects coll' ! 1) = (16, 18, 17))"
proof -
  let ?a = "map (drop 1) trc_table"
  have n: "2 < length ?a" "3 * 1 + 3 < length (?a ! 2)" by (simp_all add: trc_table_def)
  have e: "object_index (coll_objects two_markers) ''B'' = Some 1"
    by (simp add: two_markers_objects new_marker_def)
  have k: "(0::int) < 1" by simp
  have a: "(16::real) = ?a ! 2 ! (3 * 1 + 1)" and b: "(17::real) = ?a ! 2 ! (3 * 1 + 2)"
    and c: "(18::real) = ?a ! 2 ! (3 * 1 + 3)" by (simp_all add: trc_table_def)
  from marker_position_remap [OF n e k a b c, of "''zup''"]
    marker_position_remap [OF n e k a b c, of "''yup''"]
  show ?thesis by simp
qed

text \<open>
  C8. Applying the map \<open>(x, y, z) \<mapsto> (x, z, - y)\<close> to the position that the \<^verbatim>\<open>zup\<close> branch
  computes gives back the raw triple. (The remapping only permutes and negates, which
  is exact on floats as well.)
\<close>

theorem zup_remap_inverse:
  assumes "n < length trc_data_np" and "3 * i + 3 < length (trc_data_np ! n)"
  shows "\<exists>p. read_location ''zup'' trc_data_np n i = Inr p
           \<and> zup_inverse p = (trc_data_np ! n ! (3 * i + 1), trc_data_np ! n ! (3 * i + 2),
                               trc_data_np ! n ! (3 * i + 3))"
  using read_location_ok [OF assms, of "''zup''"]
  by (simp add: spec_position_def zup_inverse_def)

theorem zup_remap_inverse_witness:
  "read_location ''zup'' (map (drop 1) trc_table) 2 1 = Inr (16, - 18, 17)
   \<and> zup_inverse (16, - 18, 17) = (16, 17, 18)"
proof -
  let ?a = "map (drop 1) trc_table"
  have n: "2 < length ?a" "3 * 1 + 3 < length (?a ! 2)" by (simp_all add: trc_table_def)
  from zup_remap_inverse [OF n] obtain p where p: "read_location ''zup'' ?a 2 1 = Inr p"
    and z: "zup_inverse p = (?a ! 2 ! (3 * 1 + 1), ?a ! 2 ! (3 * 1 + 2), ?a ! 2 ! (3 * 1 + 3))"
    by blast
  from z have "zup_inverse p = (16, 17, 18)" by (simp add: trc_table_def)
  then have "p = (16, - 18, 17)" by (cases p) (simp add: zup_inverse_def)
  with p show ?thesis by (simp add: zup_inverse_def)
qed

subsection \<open>Name resolution\<close>

text \<open>
  C9. In every state \<open>c0\<close> of the collection, a name \<open>m0\<close> resolves to \<open>x\<close> exactly when
  \<open>x\<close> is the name of the first object, in the order of the collection, whose name
  contains \<open>m0\<close> (and \<^verbatim>\<open>marker_collection.objects[x]\<close> is then that object). So when the
  objects carry the trajectory names in order and the name of trajectory \<open>i\<close> occurs in
  the name of an earlier trajectory \<open>j\<close>, the name resolves to the first such object, at
  an index \<open>idx \<le> j\<close>: on a table wide enough for trajectory \<open>i\<close> and with a positive
  stride, the pass for trajectory \<open>i\<close> appends the keyframes of trajectory \<open>i\<close> to the
  object at \<open>idx\<close> and leaves the object created for trajectory \<open>i\<close> as it was.
\<close>

theorem name_resolution_first_substring:
  assumes "map ob_name (coll_objects marker_collection) = markerNames"
    and "j < i" and "i < length markerNames"
    and "contains (markerNames ! j) (markerNames ! i)"
    and "0 < k" and "len_times \<le> length trc_data_np"
    and "\<forall>n<len_times. 3 * i + 3 < length (trc_data_np ! n)"
  shows "(\<forall>x. resolve_marker c0 m0 = Inr x \<longleftrightarrow>
            (\<exists>idx<length (coll_objects c0). x = ob_name (coll_objects c0 ! idx) \<and> contains x m0
               \<and> (\<forall>l<idx. \<not> contains (ob_name (coll_objects c0 ! l)) m0)
               \<and> object_index (coll_objects c0) x = Some idx))
         \<and> (\<exists>idx c. idx \<le> j
               \<and> resolve_marker marker_collection (markerNames ! i) = Inr (markerNames ! idx)
               \<and> (\<forall>l<idx. \<not> contains (markerNames ! l) (markerNames ! i))
               \<and> animate_marker direction trc_data_np len_times k i (markerNames ! i)
                    marker_collection = (None, c)
               \<and> ob_keyframes (coll_objects c ! idx)
                    = ob_keyframes (coll_objects marker_collection ! idx)
                      @ map (\<lambda>q. (int q + 1, spec_position direction trc_data_np (q * nat k) i))
                          [0..<nat (\<lfloor>(real len_times - 1) / real_of_int k\<rfloor> + 1)]
               \<and> coll_objects c ! i = coll_objects marker_collection ! i)"
proof -
  let ?obs = "coll_objects marker_collection"
  let ?m = "markerNames ! i"
  have len: "length ?obs = length markerNames" using assms(1) by (metis length_map)
  have nm: "ob_name (?obs ! l) = markerNames ! l" if "l < length markerNames" for l
    using assms(1) that len by (metis nth_map)
  from assms(2,3) have jl: "j < length ?obs" using len by simp
  with assms(2-4) nm have "contains (ob_name (?obs ! j)) ?m" by simp
  from resolve_marker_total [OF jl this] obtain x
    where x: "resolve_marker marker_collection ?m = Inr x" by blast
  from resolve_marker_Inr [OF x] obtain idx
    where oi: "object_index ?obs x = Some idx" and il: "idx < length ?obs"
      and xn: "ob_name (?obs ! idx) = x" and cx: "contains x ?m"
      and fst: "\<forall>l<idx. \<not> contains (ob_name (?obs ! l)) ?m" by blast
  have ij: "idx \<le> j"
  proof (rule ccontr)
    assume "\<not> idx \<le> j"
    then have "j < idx" by simp
    with fst have "\<not> contains (ob_name (?obs ! j)) ?m" by blast
    with \<open>contains (ob_name (?obs ! j)) ?m\<close> show False by contradiction
  qed
  from xn il len nm have xi: "x = markerNames ! idx" by simp
  have fst': "\<forall>l<idx. \<not> contains (markerNames ! l) ?m"
  proof (intro allI impI)
    fix l assume l: "l < idx"
    with il len have "l < length markerNames" by simp
    from nm [OF this] fst l show "\<not> contains (markerNames ! l) ?m" by metis
  qed
  from animate_marker_ok [OF assms(5,6,7) x, of direction] oi
  have r: "animate_marker direction trc_data_np len_times k i ?m marker_collection =
           (None, marker_collection\<lparr>coll_objects := ?obs[idx := (?obs ! idx)
              \<lparr>ob_location := last (ob_location (?obs ! idx)
                  # map (\<lambda>q. spec_position direction trc_data_np (q * nat k) i)
                      [0..<nat (\<lfloor>(real len_times - 1) / real_of_int k\<rfloor> + 1)]),
                ob_keyframes := ob_keyframes (?obs ! idx)
                   @ map (\<lambda>q. (int q + 1, spec_position direction trc_data_np (q * nat k) i))
                       [0..<nat (\<lfloor>(real len_times - 1) / real_of_int k\<rfloor> + 1)]\<rparr>]\<rparr>)"
    (is "_ = (None, ?c)")
    by simp
  have k1: "ob_keyframes (coll_objects ?c ! idx)
                    = ob_keyframes (?obs ! idx)
                      @ map (\<lambda>q. (int q + 1, spec_position direction trc_data_np (q * nat k) i))
                          [0..<nat (\<lfloor>(real len_times - 1) / real_of_int k\<rfloor> + 1)]"
    using il by simp
  have k2: "coll_objects ?c ! i = ?obs ! i" using ij assms(2) by simp
  have part2: "\<exists>idx c. idx \<le> j
               \<and> resolve_marker marker_collection ?m = Inr (markerNames ! idx)
               \<and> (\<forall>l<idx. \<not> contains (markerNames ! l) ?m)
               \<and> animate_marker direction trc_data_np len_times k i ?m marker_collection = (None, c)
               \<and> ob_keyframes (coll_objects c ! idx)
                    = ob_keyframes (?obs ! idx)
                      @ map (\<lambda>q. (int q + 1, spec_position direction trc_data_np (q * nat k) i))
                          [0..<nat (\<lfloor>(real len_times - 1) / real_of_int k\<rfloor> + 1)]
               \<and> coll_objects c ! i = ?obs ! i"
    using ij x xi fst' r k1 k2 by blast
  show ?thesis using resolve_marker_iff part2 by blast
qed


theorem name_resolution_first_substring_witness:
  "resolve_marker hip_markers ''Hip'' = Inr ''LHip''
   \<and> (\<exists>c. animate_marker ''zup'' (map (drop 1) trc_table) 5 2 1 ''Hip'' hip_markers = (None, c)
          \<and> ob_keyframes (coll_objects c ! 0)
               = [(1, (4, - 6, 5)), (2, (16, - 18, 17)), (3, (28, - 30, 29))]
          \<and> coll_objects c ! 1 = new_marker ''Hip'')"
proof -
  let ?a = "map (drop 1) trc_table"
  let ?names = "[''LHip'', ''Hip'']"
  have a: "map ob_name (coll_objects hip_markers) = ?names"
    by (simp add: hip_markers_objects new_marker_def)
  have b: "(0::nat) < 1" and c: "1 < length ?names" by simp_all
  have d: "contains (?names ! 0) (?names ! 1)" by (simp add: startswith_def)
  have e: "(0::int) < 2" by simp
  have f: "5 \<le> length ?a" by (simp add: trc_table_def)
  have g: "\<forall>n<5. 3 * 1 + 3 < length (?a ! n)" using trc_table_shape(2) [of 1] by simp
  from name_resolution_first_substring [OF a b c d e f g, of hip_markers "''Hip''" "''zup''"]
  obtain idx c where 0: "idx \<le> 0"
    and 1: "resolve_marker hip_markers (?names ! 1) = Inr (?names ! idx)"
    and 2: "animate_marker ''zup'' ?a 5 2 1 (?names ! 1) hip_markers = (None, c)"
    and 3: "ob_keyframes (coll_objects c ! idx)
              = ob_keyframes (coll_objects hip_markers ! idx)
                @ map (\<lambda>q. (int q + 1, spec_position ''zup'' ?a (q * nat 2) 1))
                    [0..<nat (\<lfloor>(real 5 - 1) / real_of_int 2\<rfloor> + 1)]"
    and 4: "coll_objects c ! 1 = coll_objects hip_markers ! 1"
    by blast
  from 0 have i: "idx = 0" by simp
  have n: "nat (\<lfloor>(real 5 - 1) / real_of_int 2\<rfloor> + 1) = 3" by simp
  have u: "[0..<3] = [0, 1, 2]" by (simp add: upt_rec)
  from 3 have "ob_keyframes (coll_objects c ! 0)
                 = [(1, (4, - 6, 5)), (2, (16, - 18, 17)), (3, (28, - 30, 29))]"
    unfolding i n u
    by (simp add: hip_markers_objects new_marker_def spec_position_def trc_table_def)
  with 1 2 4 i show ?thesis by (simp add: hip_markers_objects)
qed

subsection \<open>The failure with a zero decimation factor\<close>

text \<open>
  C10. For a \<^verbatim>\<open>.trc\<close> path whose file loads, whose time column gives an intrinsic rate,
  and for which the decimation factor is 0: \<open>import_trc\<close> raises ValueError, and the
  state it leaves behind has the scene frame rate set to the target rate and a new
  collection \<^verbatim>\<open>markers\<close> with one fresh marker object per trajectory name, none of them
  with a keyframe. Nothing is undone.
\<close>

theorem import_trc_zero_factor_not_atomic:
  assumes "endswith trc_path ''.trc''"
    and "load_trc loadtxt fs trc_path = Inr (trc_data_np, markerNames)"
    and "column0 trc_data_np = Inr time_col"
    and "intrinsic_fps time_col = Inr fps"
    and "conv_fac_frame_rate fps target_framerate = Inr 0"
  shows "import_trc loadtxt fs c3d_load trc_path direction target_framerate s
           = (Some ValueError,
              s\<lparr>render_fps := target_framerate,
                scene_collections := scene_collections s
                  @ [\<lparr>coll_name = ''markers'', coll_objects = map new_marker markerNames\<rparr>]\<rparr>)
         \<and> markerNames \<noteq> []
         \<and> list_all (\<lambda>ob. ob_keyframes ob = []) (map new_marker markerNames)"
proof -
  note ne = load_trc_names_nonempty [OF assms(2)]
  have "list_all (\<lambda>ob. ob_keyframes ob = []) (map new_marker markerNames)"
    by (simp add: list_all_iff new_marker_def)
  moreover have "import_trc loadtxt fs c3d_load trc_path direction target_framerate s
           = (Some ValueError,
              s\<lparr>render_fps := target_framerate,
                scene_collections := scene_collections s
                  @ [\<lparr>coll_name = ''markers'', coll_objects = map new_marker markerNames\<rparr>]\<rparr>)"
    using assms by (simp add: import_trc_def animate_markers_zero [OF ne])
  ultimately show ?thesis using ne by simp
qed

theorem import_trc_zero_factor_not_atomic_witness:
  "import_trc walk_loadtxt (walk_fs walk_names_line) (\<lambda>p s. (None, s))
     ''walk.trc'' ''zup'' 3 scene0
   = (Some ValueError,
      \<lparr>render_fps = 3,
        scene_collections = [\<lparr>coll_name = ''markers'',
                               coll_objects = [new_marker ''A'', new_marker ''B'']\<rparr>],
        enabled_addons = []\<rparr>)"
proof -
  have a: "endswith ''walk.trc'' ''.trc''" by (simp add: endswith_def)
  note b = walk_file_load
  have c: "column0 (map (drop 1) trc_table) = Inr [0, 1 / 2, 1, 3 / 2, 2]"
    by (simp add: column0_def trc_table_def)
  note d = walk_fps
  have e: "conv_fac_frame_rate 2 3 = Inr 0"
    by (simp add: conv_fac_frame_rate_def truediv_def py_int_def)
  from import_trc_zero_factor_not_atomic [OF a b c d e, of "\<lambda>p s. (None, s)" "''zup''" scene0]
  show ?thesis by (simp add: scene0_def)
qed


end
